theory Spec2Isabelle
  imports Complex_Main
begin

section \<open>Python strings and numbers used by the scripts\<close>

text \<open>
  Strings are byte strings; the scripts' inputs are taken to be ASCII. \<open>str.isspace\<close> holds
  on ASCII for tab, line feed, vertical tab, form feed, carriage return, the separators
  0x1C to 0x1F and the space.
\<close>

definition is_space :: "char \<Rightarrow> bool" where
  "is_space c = (c \<in> set [CHR 0x09, CHR 0x0A, CHR 0x0B, CHR 0x0C, CHR 0x0D,
                            CHR 0x1C, CHR 0x1D, CHR 0x1E, CHR 0x1F, CHR 0x20])"

text \<open>\<^verbatim>\<open>s.strip()\<close>\<close>

definition py_strip :: "string \<Rightarrow> string" where
  "py_strip s = rev (dropWhile is_space (rev (dropWhile is_space s)))"

text \<open>\<^verbatim>\<open>s.split('\n')\<close>: the pieces between line feeds; the empty string gives one
  empty piece.\<close>

fun py_split_lines :: "string \<Rightarrow> string list" where
  "py_split_lines [] = [[]]"
| "py_split_lines (c # cs) =
     (if c = CHR 0x0A then [] # py_split_lines cs
      else (case py_split_lines cs of
              l # ls \<Rightarrow> (c # l) # ls
            | [] \<Rightarrow> [[c]]))"

text \<open>\<^verbatim>\<open>s.startswith(p)\<close> and \<^verbatim>\<open>s.endswith(p)\<close>\<close>

definition startswith :: "string \<Rightarrow> string \<Rightarrow> bool" where
  "startswith s p = (take (length p) s = p)"

definition endswith :: "string \<Rightarrow> string \<Rightarrow> bool" where
  "endswith s p = (length p \<le> length s \<and> drop (length s - length p) s = p)"

text \<open>
  \<^verbatim>\<open>s.replace(old, new)\<close>: every occurrence of \<open>old\<close>, found from the left and
  without overlap, is replaced by \<open>new\<close>. An empty \<open>old\<close> matches before every character
  and at the end.
\<close>

function py_replace :: "string \<Rightarrow> string \<Rightarrow> string \<Rightarrow> string" where
  "py_replace old new s =
     (if old = [] then new @ concat (map (\<lambda>c. c # new) s)
      else if s = [] then []
      else if take (length old) s = old then new @ py_replace old new (drop (length old) s)
      else hd s # py_replace old new (tl s))"
  by pat_completeness auto
termination
  by (relation "measure (\<lambda>(old, new, s). length s)") auto

declare py_replace.simps [simp del]

text \<open>Decimal digits (the codes 48 to 57) and the number a digit string denotes.\<close>

definition is_digit :: "char \<Rightarrow> bool" where
  "is_digit c = (48 \<le> (of_char c :: nat) \<and> (of_char c :: nat) \<le> 57)"

definition digit_val :: "char \<Rightarrow> nat" where
  "digit_val c = of_char c - 48"

definition nat_of_digits :: "string \<Rightarrow> nat" where
  "nat_of_digits ds = foldl (\<lambda>a c. 10 * a + digit_val c) 0 ds"

text \<open>
  A Python float is modelled by the number its decimal text denotes, or one of the three
  special values. Rounding to binary64 (and overflow to infinity) is not modelled: a finite
  float stands for the exact decimal value, which has the sign of the float and is the
  float itself for the integers and short decimals of the examples.
\<close>

datatype pyfloat = Finite rat | PosInf | NegInf | NaN

definition negate :: "pyfloat \<Rightarrow> pyfloat" where
  "negate x = (case x of Finite r \<Rightarrow> Finite (- r) | PosInf \<Rightarrow> NegInf
               | NegInf \<Rightarrow> PosInf | NaN \<Rightarrow> NaN)"

definition pow10 :: "int \<Rightarrow> rat" where
  "pow10 k = (if 0 \<le> k then 10 ^ nat k else 1 / 10 ^ nat (- k))"

text \<open>The code of a character with the ASCII capitals mapped to small letters, and the
  comparison of a text with a word in small letters that ignores case.\<close>

definition lower_code :: "char \<Rightarrow> nat" where
  "lower_code c = (if 65 \<le> (of_char c :: nat) \<and> (of_char c :: nat) \<le> 90
                   then of_char c + 32 else of_char c)"

definition same_word :: "string \<Rightarrow> string \<Rightarrow> bool" where
  "same_word r w = (map lower_code r = map of_char w)"

text \<open>
  \<^verbatim>\<open>float(s)\<close> on a string. Underscores may stand between two digits only; the text
  without them is an optional sign followed by \<^verbatim>\<open>inf\<close>, \<^verbatim>\<open>infinity\<close> or
  \<^verbatim>\<open>nan\<close> in any case, or by a decimal numeral: digits with an optional point, at
  least one digit before or after it, and an optional exponent. \<open>None\<close> is ValueError.
\<close>

fun underscores_ok :: "char option \<Rightarrow> string \<Rightarrow> bool" where
  "underscores_ok prev [] = True"
| "underscores_ok prev (c # cs) =
     (if c = CHR ''_''
      then (case prev of Some p \<Rightarrow> is_digit p | None \<Rightarrow> False)
           \<and> (case cs of d # _ \<Rightarrow> is_digit d | [] \<Rightarrow> False)
           \<and> underscores_ok (Some c) cs
      else underscores_ok (Some c) cs)"

definition float_exponent :: "string \<Rightarrow> int option" where
  "float_exponent r =
     (case r of
        [] \<Rightarrow> Some 0
      | e # r3 \<Rightarrow>
          if e = CHR ''e'' \<or> e = CHR ''E''
          then (let neg = (case r3 of s # _ \<Rightarrow> s = CHR ''-'' | [] \<Rightarrow> False);
                    ds = (case r3 of s # d \<Rightarrow> if s = CHR ''-'' \<or> s = CHR ''+'' then d else r3
                          | [] \<Rightarrow> [])
                in if ds \<noteq> [] \<and> list_all is_digit ds
                   then Some (if neg then - int (nat_of_digits ds) else int (nat_of_digits ds))
                   else None)
          else None)"

definition float_decimal :: "string \<Rightarrow> pyfloat option" where
  "float_decimal r =
     (let ip = takeWhile is_digit r;
          r1 = dropWhile is_digit r;
          fp = (case r1 of c # r' \<Rightarrow> if c = CHR ''.'' then takeWhile is_digit r' else []
                | [] \<Rightarrow> []);
          r2 = (case r1 of c # r' \<Rightarrow> if c = CHR ''.'' then dropWhile is_digit r' else r1
                | [] \<Rightarrow> [])
      in if ip = [] \<and> fp = [] then None
         else (case float_exponent r2 of
                 None \<Rightarrow> None
               | Some ex \<Rightarrow>
                   Some (Finite (of_nat (nat_of_digits (ip @ fp)) * pow10 (ex - int (length fp))))))"

definition float_unsigned :: "string \<Rightarrow> pyfloat option" where
  "float_unsigned r =
     (if same_word r ''inf'' \<or> same_word r ''infinity'' then Some PosInf
      else if same_word r ''nan'' then Some NaN
      else float_decimal r)"

definition py_float :: "string \<Rightarrow> pyfloat option" where
  "py_float s =
     (let t = py_strip s in
      if \<not> underscores_ok None t then None
      else (case filter (\<lambda>c. c \<noteq> CHR ''_'') t of
              [] \<Rightarrow> None
            | c # r \<Rightarrow>
                if c = CHR ''-'' then map_option negate (float_unsigned r)
                else if c = CHR ''+'' then float_unsigned r
                else float_unsigned (c # r)))"

text \<open>The exceptions the scripts catch, as values.\<close>

datatype error = KeyError string | JSONDecodeError | AttributeError

text \<open>\<^verbatim>\<open>str(n)\<close> for a natural number: its decimal digits.\<close>

definition digit_char :: "nat \<Rightarrow> char" where
  "digit_char d = ''0123456789'' ! d"

function str_nat :: "nat \<Rightarrow> string" where
  "str_nat n = (if n < 10 then [digit_char n] else str_nat (n div 10) @ [digit_char (n mod 10)])"
  by pat_completeness auto
termination
  by (relation "measure (\<lambda>n. n)") auto

declare str_nat.simps [simp del]

section \<open>Nutrition extractor (clean.py)\<close>

subsection \<open>Input\<close>

text \<open>
  The meals column of a diary row after \<^verbatim>\<open>json.loads\<close>: a list of meals, a meal with
  or without a \<^verbatim>\<open>dishes\<close> list, a dish with a name and a \<^verbatim>\<open>nutritions\<close> list
  of name and value strings. A key the JSON object lacks is \<open>None\<close>; a row whose text
  \<^verbatim>\<open>json.loads\<close> rejects is \<open>None\<close> as a whole. Values of other JSON types than
  the ones named here are outside the model.
\<close>

record nutrient =
  n_name :: "string option"
  n_value :: "string option"

record dish =
  d_name :: "string option"
  d_nutritions :: "nutrient list option"

record meal =
  m_dishes :: "dish list option"

type_synonym diary_row = "meal list option"

subsection \<open>Dictionaries\<close>

text \<open>
  A Python dict keeps its keys in insertion order: an association list without repeated
  keys. \<^verbatim>\<open>d[k] = v\<close> replaces the value of a key that is present and appends a new
  key at the end.
\<close>

fun dict_set :: "('k \<times> 'v) list \<Rightarrow> 'k \<Rightarrow> 'v \<Rightarrow> ('k \<times> 'v) list" where
  "dict_set [] k v = [(k, v)]"
| "dict_set ((k', v') # d) k v =
     (if k' = k then (k, v) # d else (k', v') # dict_set d k v)"

text \<open>
  The value kept for a nutrient: the float the text converts to, or the text itself.
  Two values are equal for \<^verbatim>\<open>==\<close> when they are the same value, except that a NaN
  is equal to nothing: every \<^verbatim>\<open>float()\<close> call returns a fresh object, so the
  identity shortcut of the comparison never applies to two stored values.
\<close>

datatype pyval = VFloat pyfloat | VStr string

definition value_eq :: "pyval \<Rightarrow> pyval \<Rightarrow> bool" where
  "value_eq a b = (a = b \<and> a \<noteq> VFloat NaN)"

type_synonym profile = "(string \<times> pyval) list"

text \<open>
  \<^verbatim>\<open>existing_nutritions == nutritions\<close> on two dicts: the same number of keys, and
  every key of the left dict is a key of the right one with an equal value.
\<close>

definition dict_eq :: "profile \<Rightarrow> profile \<Rightarrow> bool" where
  "dict_eq a b =
     (length a = length b
      \<and> list_all (\<lambda>(k, v). case map_of b k of None \<Rightarrow> False | Some w \<Rightarrow> value_eq v w) a)"

subsection \<open>The accumulation loop (lines 16 to 50)\<close>

text \<open>
  Lines 31 to 34: \<^verbatim>\<open>float(nutrient['value'].replace(',', ''))\<close>, and on any
  exception the original \<^verbatim>\<open>nutrient['value']\<close>.
\<close>

definition normalize_value :: "string \<Rightarrow> pyval" where
  "normalize_value v =
     (case py_float (py_replace '','' [] v) of
        Some x \<Rightarrow> VFloat x
      | None \<Rightarrow> VStr v)"

text \<open>
  Lines 28 to 35. A nutrient without \<^verbatim>\<open>value\<close> raises KeyError inside the
  \<^verbatim>\<open>try\<close> and again in its handler; one without \<^verbatim>\<open>name\<close> raises at line 35.
\<close>

fun build_nutritions :: "profile \<Rightarrow> nutrient list \<Rightarrow> error + profile" where
  "build_nutritions acc [] = Inr acc"
| "build_nutritions acc (n # ns) =
     (case n_value n of
        None \<Rightarrow> Inl (KeyError ''value'')
      | Some v \<Rightarrow>
          (case n_name n of
             None \<Rightarrow> Inl (KeyError ''name'')
           | Some k \<Rightarrow> build_nutritions (dict_set acc k (normalize_value v)) ns))"

text \<open>Lines 25 to 35: the name and the profile of a dish, or the KeyError raised.\<close>

definition read_dish :: "dish \<Rightarrow> error + (string \<times> profile)" where
  "read_dish d =
     (case d_name d of
        None \<Rightarrow> Inl (KeyError ''name'')
      | Some food_name \<Rightarrow>
          (case d_nutritions d of
             None \<Rightarrow> Inl (KeyError ''nutritions'')
           | Some ns \<Rightarrow>
               (case build_nutritions [] ns of
                  Inl e \<Rightarrow> Inl e
                | Inr p \<Rightarrow> Inr (food_name, p))))"

text \<open>
  Lines 39 to 44: the scan of the name's list of \<open>(profile, count)\<close> pairs. The first
  pair whose profile equals the dish's gets its count raised and the scan stops; \<open>None\<close>
  is \<^verbatim>\<open>found == False\<close>.
\<close>

fun bump_existing :: "(profile \<times> nat) list \<Rightarrow> profile \<Rightarrow> (profile \<times> nat) list option" where
  "bump_existing [] p = None"
| "bump_existing ((q, c) # es) p =
     (if dict_eq q p then Some ((q, c + 1) # es)
      else map_option (\<lambda>es'. (q, c) # es') (bump_existing es p))"

text \<open>Lines 39 to 47.\<close>

definition add_profile :: "(profile \<times> nat) list \<Rightarrow> profile \<Rightarrow> (profile \<times> nat) list" where
  "add_profile es p =
     (case bump_existing es p of
        Some es' \<Rightarrow> es'
      | None \<Rightarrow> es @ [(p, 1)])"

text \<open>
  \<open>unique_foods\<close> is a \<^verbatim>\<open>defaultdict(list)\<close>: a name that is not a key reads as the
  empty list.
\<close>

type_synonym food_table = "(string \<times> (profile \<times> nat) list) list"

definition entries_of :: "food_table \<Rightarrow> string \<Rightarrow> (profile \<times> nat) list" where
  "entries_of unique_foods food_name =
     (case map_of unique_foods food_name of None \<Rightarrow> [] | Some es \<Rightarrow> es)"

definition record_dish :: "food_table \<Rightarrow> string \<times> profile \<Rightarrow> food_table" where
  "record_dish unique_foods d =
     dict_set unique_foods (fst d) (add_profile (entries_of unique_foods (fst d)) (snd d))"

text \<open>
  Lines 24 to 47 for the dishes of one meal. The table is updated in place, so what was
  recorded before a dish raises stays recorded; the second component is the exception
  that ended the loop, if any.
\<close>

fun process_dishes :: "food_table \<Rightarrow> dish list \<Rightarrow> food_table \<times> error option" where
  "process_dishes unique_foods [] = (unique_foods, None)"
| "process_dishes unique_foods (d # ds) =
     (case read_dish d of
        Inl e \<Rightarrow> (unique_foods, Some e)
      | Inr np \<Rightarrow> process_dishes (record_dish unique_foods np) ds)"

text \<open>Lines 22 to 47 for the meals of one row.\<close>

fun process_meals :: "food_table \<Rightarrow> meal list \<Rightarrow> food_table \<times> error option" where
  "process_meals unique_foods [] = (unique_foods, None)"
| "process_meals unique_foods (m # ms) =
     (case m_dishes m of
        None \<Rightarrow> process_meals unique_foods ms
      | Some ds \<Rightarrow>
          (case process_dishes unique_foods ds of
             (unique_foods', Some e) \<Rightarrow> (unique_foods', Some e)
           | (unique_foods', None) \<Rightarrow> process_meals unique_foods' ms))"

text \<open>
  Lines 17 to 50 for one row: the handler of line 49 prints the exception and the loop
  goes on with the next row.
\<close>

definition process_row :: "food_table \<Rightarrow> diary_row \<Rightarrow> food_table" where
  "process_row unique_foods row =
     (case row of
        None \<Rightarrow> unique_foods
      | Some meals \<Rightarrow> fst (process_meals unique_foods meals))"

definition unique_foods_of :: "diary_row list \<Rightarrow> food_table" where
  "unique_foods_of rows = foldl process_row [] rows"

subsection \<open>\<^verbatim>\<open>save_to_csv\<close> (lines 77 to 95)\<close>





subsection \<open>What the specification counts\<close>



definition dish_ok :: "dish \<Rightarrow> bool" where
  "dish_ok d = (case read_dish d of Inl e \<Rightarrow> False | Inr np \<Rightarrow> True)"

definition dish_pair :: "dish \<Rightarrow> string \<times> profile" where
  "dish_pair d = (case read_dish d of Inl e \<Rightarrow> ([], []) | Inr np \<Rightarrow> np)"









subsection \<open>Notions used in the proofs\<close>







definition oats_profile :: "rat \<Rightarrow> profile" where
  "oats_profile calories =
     [(''Calories'', VFloat (Finite calories)), (''Sodium'', VFloat (Finite 1234))]"

subsection \<open>Example rows\<close>

definition oats :: "string \<Rightarrow> dish" where
  "oats calories =
     \<lparr> d_name = Some ''Oats'',
       d_nutritions = Some [\<lparr> n_name = Some ''Calories'', n_value = Some calories \<rparr>,
                            \<lparr> n_name = Some ''Sodium'', n_value = Some ''1,234'' \<rparr>] \<rparr>"

definition oats_rows :: "diary_row list" where
  "oats_rows = [Some [\<lparr> m_dishes = Some [oats ''150'', oats ''150''] \<rparr>],
                Some [\<lparr> m_dishes = Some [oats ''160''] \<rparr>]]"



section \<open>Synthetic food generator (generate.py)\<close>

subsection \<open>Constants and helpers (lines 10 to 60)\<close>

definition EXISTING_FOODS :: "string list" where
  "EXISTING_FOODS =
     [''Chicken Breast (Raw, Boneless, Skinless)'',
      ''Turkey Breast (Ground, 99% Lean)'',
      ''Salmon (Atlantic, Raw)'',
      ''Greek Yogurt (Non-Fat, Plain)'',
      ''Oats (Rolled, Dry)'',
      ''Brown Rice (Raw)'',
      ''Almonds (Raw)'',
      ''Whey Protein Isolate'',
      ''Broccoli (Raw)'',
      ''Tofu (Extra Firm)'']"

definition quote :: char where
  "quote = CHR 0x27"

text \<open>Lines 23 to 28. \<open>None\<close> is Python's \<^verbatim>\<open>None\<close>.\<close>

definition escape_sql_string :: "string option \<Rightarrow> string" where
  "escape_sql_string text =
     (case text of
        None \<Rightarrow> []
      | Some t \<Rightarrow> py_replace [quote] [quote, quote] t)"

text \<open>
  A value of a parsed JSON object, as far as the script tells values apart: null, a string,
  or any other value (number, boolean, list, object), of which only the text \<^verbatim>\<open>str\<close>
  gives is used.
\<close>

datatype jval = JNull | JStr string | JOther string

type_synonym json_object = "(string \<times> jval) list"

definition py_str :: "jval \<Rightarrow> string" where
  "py_str v = (case v of JNull \<Rightarrow> ''None'' | JStr s \<Rightarrow> s | JOther s \<Rightarrow> s)"

text \<open>\<^verbatim>\<open>food.get(key)\<close>: a missing key reads as \<^verbatim>\<open>None\<close>.\<close>

definition dict_get :: "json_object \<Rightarrow> string \<Rightarrow> jval" where
  "dict_get obj k = (case map_of obj k of None \<Rightarrow> JNull | Some v \<Rightarrow> v)"

text \<open>
  \<^verbatim>\<open>food.get(key, fallback).strip()\<close>: only a string has \<^verbatim>\<open>strip\<close>; on null or
  any other value the call raises AttributeError.
\<close>

definition get_stripped :: "json_object \<Rightarrow> string \<Rightarrow> string \<Rightarrow> error + string" where
  "get_stripped obj k fallback =
     (case map_of obj k of
        None \<Rightarrow> Inr (py_strip fallback)
      | Some (JStr s) \<Rightarrow> Inr (py_strip s)
      | Some JNull \<Rightarrow> Inl AttributeError
      | Some (JOther s) \<Rightarrow> Inl AttributeError)"

text \<open>A number held by a record: the int given as a default, or a parsed float.\<close>

datatype pynum = PyInt int | PyFloat pyfloat

text \<open>\<^verbatim>\<open>re.sub(r'[^\d.]', '', s)\<close>\<close>

definition keep_numeric :: "string \<Rightarrow> string" where
  "keep_numeric s = filter (\<lambda>c. is_digit c \<or> c = CHR ''.'') s"

text \<open>Lines 49 to 60. The bare \<^verbatim>\<open>except\<close> turns the ValueError of
  \<^verbatim>\<open>float\<close> into the default.\<close>

definition clean_numeric_value :: "jval \<Rightarrow> pynum \<Rightarrow> pynum" where
  "clean_numeric_value v dflt =
     (case v of
        JNull \<Rightarrow> dflt
      | _ \<Rightarrow>
          (let cleaned = keep_numeric (py_str v)
           in if cleaned \<noteq> []
              then (case py_float cleaned of Some x \<Rightarrow> PyFloat x | None \<Rightarrow> dflt)
              else dflt))"

subsection \<open>Records and the state of \<open>main\<close>\<close>

record food =
  name :: string
  brand :: string
  calories :: pynum
  protein :: pynum
  carbs :: pynum
  fat :: pynum
  fiber :: pynum
  sugar :: pynum
  serving_size :: pynum
  serving_unit :: string
  category :: string
  confidence :: string
  popularity :: pynum

datatype file_content = Json "food list" | Sql string

text \<open>
  The variables of \<open>main\<close>, and what it has done to the outside: the number of requests
  sent to the endpoint and the files written, in order. \<open>interrupted\<close> is set by the
  \<^verbatim>\<open>break\<close> of line 164.
\<close>

record gen_state =
  generated_foods :: "food list"
  existing_names :: "string set"
  iteration :: nat
  empty_iterations :: nat
  interrupted :: bool
  requests :: nat
  files :: "(string \<times> file_content) list"

definition max_empty_iterations :: nat where
  "max_empty_iterations = 10"

definition initial_state :: gen_state where
  "initial_state =
     \<lparr> generated_foods = [], existing_names = set EXISTING_FOODS, iteration = 0,
       empty_iterations = 0, interrupted = False, requests = 0, files = [] \<rparr>"

definition categories :: "string list" where
  "categories =
     [''High-protein snacks'', ''Pre-workout meals'', ''Post-workout recovery'',
      ''Low-carb options'', ''Vegan fitness foods'', ''Bulking foods'', ''Cutting foods'']"

text \<open>
  What \<^verbatim>\<open>query_llm\<close> does in an iteration is given from outside: it returns the
  content string of the reply, raises an exception (a network failure, a reply of another
  shape), or is interrupted by the user. The endpoint is asked with the number of the
  iteration and the category named in the prompt. An exception or an interrupt at another
  point of the body (while a checkpoint is written, during a pause) is not modelled.
\<close>

datatype llm_result = Reply string | Failure | KeyboardInterrupt

type_synonym endpoint = "nat \<Rightarrow> string \<Rightarrow> llm_result"

text \<open>\<^verbatim>\<open>json.loads\<close> on a line that starts with an opening and ends with a closing
  brace: the object, or \<open>None\<close> for the exception. It is a parameter of the model.\<close>

type_synonym loads = "string \<Rightarrow> json_object option"

subsection \<open>One candidate (lines 116 to 139)\<close>

text \<open>
  The record built from a parsed object, or \<open>None\<close> when the candidate is dropped: its
  name is empty after stripping or is in \<open>existing_names\<close>, or a text field is not a
  string and \<^verbatim>\<open>strip\<close> raises into the handler of line 142.
\<close>

definition parse_food :: "string set \<Rightarrow> json_object \<Rightarrow> food option" where
  "parse_food names obj =
     (case get_stripped obj ''name'' [] of
        Inl e \<Rightarrow> None
      | Inr food_name \<Rightarrow>
          if food_name \<noteq> [] \<and> food_name \<notin> names
          then (case get_stripped obj ''brand'' ''Generic'' of
                  Inl e \<Rightarrow> None
                | Inr b \<Rightarrow>
                    (case get_stripped obj ''serving_unit'' ''g'' of
                       Inl e \<Rightarrow> None
                     | Inr u \<Rightarrow>
                         (case get_stripped obj ''category'' ''Unknown'' of
                            Inl e \<Rightarrow> None
                          | Inr c \<Rightarrow>
                              Some \<lparr> name = food_name,
                                     brand = b,
                                     calories = clean_numeric_value (dict_get obj ''calories'') (PyInt 0),
                                     protein = clean_numeric_value (dict_get obj ''protein'') (PyInt 0),
                                     carbs = clean_numeric_value (dict_get obj ''carbs'') (PyInt 0),
                                     fat = clean_numeric_value (dict_get obj ''fat'') (PyInt 0),
                                     fiber = clean_numeric_value (dict_get obj ''fiber'') (PyInt 0),
                                     sugar = clean_numeric_value (dict_get obj ''sugar'') (PyInt 0),
                                     serving_size =
                                       clean_numeric_value (dict_get obj ''serving_size'') (PyInt 100),
                                     serving_unit = u,
                                     category = c,
                                     confidence = ''estimated'',
                                     popularity = PyInt 50 \<rparr>)))
          else None)"

subsection \<open>One response (lines 109 to 160)\<close>

text \<open>Lines 113 to 144 for one line; the number is \<^verbatim>\<open>new_count\<close>.\<close>

definition handle_line :: "loads \<Rightarrow> gen_state \<times> nat \<Rightarrow> string \<Rightarrow> gen_state \<times> nat" where
  "handle_line json_loads sn l =
     (let line = py_strip l in
      if startswith line ''{'' \<and> endswith line ''}''
      then (case json_loads line of
              None \<Rightarrow> sn
            | Some obj \<Rightarrow>
                (case parse_food (existing_names (fst sn)) obj of
                   None \<Rightarrow> sn
                 | Some cleaned_food \<Rightarrow>
                     ((fst sn)\<lparr> generated_foods := generated_foods (fst sn) @ [cleaned_food],
                                existing_names := insert (name cleaned_food) (existing_names (fst sn)) \<rparr>,
                      snd sn + 1)))
      else sn)"

definition checkpoint_name :: "nat \<Rightarrow> string" where
  "checkpoint_name i = ''generated_foods_iter_'' @ str_nat i @ ''.json''"

definition run_reply :: "loads \<Rightarrow> gen_state \<Rightarrow> string \<Rightarrow> gen_state" where
  "run_reply json_loads st response =
     (let lines = py_split_lines (py_strip response);
          sn = foldl (handle_line json_loads) (st, 0) lines;
          st1 = fst sn;
          new_count = snd sn;
          st2 = (if new_count > 0 then st1\<lparr> empty_iterations := 0 \<rparr>
                 else st1\<lparr> empty_iterations := empty_iterations st1 + 1 \<rparr>)
      in if iteration st2 mod 5 = 0 \<and> generated_foods st2 \<noteq> []
         then st2\<lparr> files := files st2
                       @ [(checkpoint_name (iteration st2), Json (generated_foods st2))] \<rparr>
         else st2)"

subsection \<open>The loop (lines 74 to 167)\<close>

text \<open>
  One pass of the body. A failed request leaves every variable but \<open>iteration\<close> as it was
  (line 165); an interrupt leaves the loop (line 162).
\<close>

definition loop_body :: "endpoint \<Rightarrow> loads \<Rightarrow> gen_state \<Rightarrow> gen_state" where
  "loop_body llm json_loads st =
     (let st1 = st\<lparr> iteration := iteration st + 1 \<rparr>;
          prompt_category = categories ! (iteration st1 mod length categories);
          st2 = st1\<lparr> requests := requests st1 + 1 \<rparr>
      in case llm (iteration st1) prompt_category of
           Reply response \<Rightarrow> run_reply json_loads st2 response
         | Failure \<Rightarrow> st2
         | KeyboardInterrupt \<Rightarrow> st2\<lparr> interrupted := True \<rparr>)"

text \<open>The loop goes on while the condition of line 74 holds and no \<^verbatim>\<open>break\<close> was
  taken.\<close>

definition loop_guard :: "gen_state \<Rightarrow> bool" where
  "loop_guard st = (empty_iterations st < max_empty_iterations \<and> \<not> interrupted st)"

text \<open>The loop as it runs: it returns the state at its exit, and \<open>None\<close> when it never
  leaves.\<close>

partial_function (option) main_loop :: "endpoint \<Rightarrow> loads \<Rightarrow> gen_state \<Rightarrow> gen_state option" where
  "main_loop llm json_loads st =
     (if loop_guard st then main_loop llm json_loads (loop_body llm json_loads st) else Some st)"

text \<open>The state after at most \<open>n\<close> passes: the moments of a run, also of one that never
  ends.\<close>

fun run :: "nat \<Rightarrow> endpoint \<Rightarrow> loads \<Rightarrow> gen_state \<Rightarrow> gen_state" where
  "run 0 llm json_loads st = st"
| "run (Suc n) llm json_loads st =
     (if loop_guard st then run n llm json_loads (loop_body llm json_loads st) else st)"

subsection \<open>The final output (lines 175 to 208)\<close>

text \<open>
  Line 179. How Python prints a number inside the f-string is a parameter \<open>fmt\<close>; the
  string fields go through \<open>escape_sql_string\<close> between two quotes.
\<close>

definition sql_text :: "string \<Rightarrow> string" where
  "sql_text s = [quote] @ escape_sql_string (Some s) @ [quote]"

definition sql_tuple :: "(pynum \<Rightarrow> string) \<Rightarrow> food \<Rightarrow> string" where
  "sql_tuple fmt f =
     ''('' @ sql_text (name f) @ '', '' @ sql_text (brand f) @ '', ''
     @ fmt (calories f) @ '', '' @ fmt (protein f) @ '', '' @ fmt (carbs f) @ '', ''
     @ fmt (fat f) @ '', '' @ fmt (fiber f) @ '', '' @ fmt (sugar f) @ '', ''
     @ fmt (serving_size f) @ '', '' @ sql_text (serving_unit f) @ '', ''
     @ sql_text (confidence f) @ '', '' @ fmt (popularity f) @ '', ''
     @ sql_text (category f) @ ''),''"

definition sql_header :: string where
  "sql_header =
     concat (map (\<lambda>l. l @ [CHR 0x0A])
       [''INSERT INTO public.food_catalog ('', ''  name, '', ''  brand, '', ''  calories, '',
        ''  protein, '', ''  carbs, '', ''  fat, '', ''  fiber, '', ''  sugar, '',
        ''  serving_size, '', ''  serving_unit, '', ''  confidence, '', ''  popularity, '',
        ''  category'', '') VALUES ''])"

text \<open>\<^verbatim>\<open>"\n".join(ls)\<close> and \<^verbatim>\<open>s.rstrip(',')\<close>\<close>

fun join_lines :: "string list \<Rightarrow> string" where
  "join_lines [] = []"
| "join_lines [l] = l"
| "join_lines (l # ls) = l @ [CHR 0x0A] @ join_lines ls"

definition rstrip_commas :: "string \<Rightarrow> string" where
  "rstrip_commas s = rev (dropWhile (\<lambda>c. c = CHR '','') (rev s))"

definition sql_output :: "(pynum \<Rightarrow> string) \<Rightarrow> food list \<Rightarrow> string" where
  "sql_output fmt foods =
     (let sql_lines = map (sql_tuple fmt) foods
      in rstrip_commas (sql_header @ join_lines sql_lines) @ '';'')"

definition finish :: "(pynum \<Rightarrow> string) \<Rightarrow> gen_state \<Rightarrow> gen_state" where
  "finish fmt st =
     (if generated_foods st \<noteq> []
      then st\<lparr> files := files st
                  @ [(''generated_foods.sql'', Sql (sql_output fmt (generated_foods st))),
                     (''generated_foods.json'', Json (generated_foods st))] \<rparr>
      else st)"

definition main :: "endpoint \<Rightarrow> loads \<Rightarrow> (pynum \<Rightarrow> string) \<Rightarrow> gen_state option" where
  "main llm json_loads fmt = map_option (finish fmt) (main_loop llm json_loads initial_state)"

subsection \<open>Notions used in the statements\<close>

definition float_nonneg :: "pyfloat \<Rightarrow> bool" where
  "float_nonneg x = (case x of Finite r \<Rightarrow> 0 \<le> r | PosInf \<Rightarrow> True | NegInf \<Rightarrow> False
                      | NaN \<Rightarrow> False)"

definition pynum_nonneg :: "pynum \<Rightarrow> bool" where
  "pynum_nonneg x = (case x of PyInt i \<Rightarrow> 0 \<le> i | PyFloat y \<Rightarrow> float_nonneg y)"

text \<open>The number of records a reply adds when the names seen are those of \<open>st\<close>.\<close>

definition new_count_of :: "loads \<Rightarrow> gen_state \<Rightarrow> string \<Rightarrow> nat" where
  "new_count_of json_loads st response =
     snd (foldl (handle_line json_loads) (st, 0) (py_split_lines (py_strip response)))"

text \<open>The accepted names are non-empty, pairwise distinct and none of the pre-existing
  names, and the seen set is the pre-existing names with the accepted ones.\<close>

definition names_ok :: "gen_state \<Rightarrow> bool" where
  "names_ok st =
     (distinct (map name (generated_foods st))
      \<and> (\<forall>f \<in> set (generated_foods st). name f \<noteq> [] \<and> name f \<notin> set EXISTING_FOODS)
      \<and> existing_names st = set EXISTING_FOODS \<union> set (map name (generated_foods st)))"

text \<open>The next iteration gets a reply and accepts no record from it.\<close>

definition empty_reply :: "endpoint \<Rightarrow> loads \<Rightarrow> gen_state \<Rightarrow> bool" where
  "empty_reply llm json_loads st =
     (case llm (iteration st + 1) (categories ! ((iteration st + 1) mod length categories)) of
        Reply response \<Rightarrow> new_count_of json_loads st response = 0
      | Failure \<Rightarrow> False
      | KeyboardInterrupt \<Rightarrow> False)"

text \<open>Doubling every quote, character by character.\<close>

definition double_quotes :: "string \<Rightarrow> string" where
  "double_quotes s = concat (map (\<lambda>c. if c = quote then [quote, quote] else [c]) s)"

subsection \<open>Example endpoints\<close>

definition example_line :: string where
  \<open>example_line = ''{"name": "Protein Bar X", "calories": "1,200"}''\<close>

definition example_loads :: loads where
  "example_loads l =
     (if l = example_line
      then Some [(''name'', JStr ''Protein Bar X''), (''calories'', JStr ''1,200'')]
      else None)"

definition protein_bar :: food where
  "protein_bar =
     \<lparr> name = ''Protein Bar X'', brand = ''Generic'', calories = PyFloat (Finite 1200),
       protein = PyInt 0, carbs = PyInt 0, fat = PyInt 0, fiber = PyInt 0, sugar = PyInt 0,
       serving_size = PyInt 100, serving_unit = ''g'', category = ''Unknown'',
       confidence = ''estimated'', popularity = PyInt 50 \<rparr>"

text \<open>An endpoint that is down, one that answers with text holding no record, and one
  that sends the example line once and fails afterwards.\<close>

definition failing_endpoint :: endpoint where
  "failing_endpoint i c = Failure"

definition silent_endpoint :: endpoint where
  "silent_endpoint i c = Reply ''Sorry, I have no more foods.''"

definition one_food_endpoint :: endpoint where
  "one_food_endpoint i c = (if i = 1 then Reply example_line else Failure)"

text \<open>An endpoint that sends the example line every time.\<close>

definition repeat_endpoint :: endpoint where
  "repeat_endpoint i c = Reply example_line"

definition obrien :: string where
  "obrien = ''O'' @ [quote] @ ''Brien'' @ [quote] @ ''s Bar''"

section \<open>Deduplicator (clean2.py)\<close>

text \<open>
  A data frame, as \<^verbatim>\<open>pd.read_csv\<close> returns it, is the list of its rows in file
  order. A cell is \<open>Some s\<close> for a value and \<open>None\<close> for a missing one (pandas' NaN).
  The columns the script reads by name are fields of the row; \<open>profile_no\<close> and
  \<open>occurrences\<close> are \<open>None\<close> at the outer level when the table has no such column.
\<close>

type_synonym cell = "string option"

record csv_row =
  food_name :: cell
  profile_no :: "cell option"
  occurrences :: "cell option"
  other_cells :: "cell list"



















section \<open>Properties of the extractor\<close>

lemma py_replace_char:
  "py_replace [c] new s = concat (map (\<lambda>x. if x = c then new else [x]) s)"
proof (induction s)
  case Nil
  then show ?case by (subst py_replace.simps) simp
next
  case (Cons x xs)
  then show ?case by (subst py_replace.simps) simp
qed

lemma py_replace_remove: "py_replace [c] [] s = filter (\<lambda>x. x \<noteq> c) s"
  unfolding py_replace_char by (induction s) auto

lemmas py_eval = is_space_def py_strip_def is_digit_def digit_val_def nat_of_digits_def
  float_exponent_def float_decimal_def float_unsigned_def py_float_def lower_code_def same_word_def
  pow10_def negate_def





lemma bump_existing_None:
  "(bump_existing es p = None) = (\<not> list_ex (\<lambda>e. dict_eq (fst e) p) es)"
  by (induction es) (auto split: if_splits)

lemma bump_existing_Some:
  "bump_existing es p = Some es' \<Longrightarrow>
   \<exists>i < length es. dict_eq (fst (es ! i)) p \<and> (\<forall>j < i. \<not> dict_eq (fst (es ! j)) p)
       \<and> es' = es[i := (fst (es ! i), snd (es ! i) + 1)]"
proof (induction es arbitrary: es')
  case Nil
  then show ?case by simp
next
  case (Cons e es)
  obtain q c where e: "e = (q, c)" by (cases e)
  show ?case
  proof (cases "dict_eq q p")
    case True
    with Cons.prems e have "es' = (q, c + 1) # es" by simp
    with True e show ?thesis by (intro exI[of _ 0]) simp
  next
    case False
    with Cons.prems e obtain es0 where es0: "bump_existing es p = Some es0" "es' = (q, c) # es0"
      by auto
    from Cons.IH[OF es0(1)] obtain i where i: "i < length es" "dict_eq (fst (es ! i)) p"
      "\<forall>j < i. \<not> dict_eq (fst (es ! j)) p" "es0 = es[i := (fst (es ! i), snd (es ! i) + 1)]"
      by blast
    have "\<forall>j < Suc i. \<not> dict_eq (fst ((e # es) ! j)) p"
      using i(3) False e by (auto simp: less_Suc_eq_0_disj)
    with i es0 e show ?thesis by (intro exI[of _ "Suc i"]) simp
  qed
qed

lemma read_oats_150: "read_dish (oats ''150'') = Inr (''Oats'', oats_profile 150)"
  by (simp add: read_dish_def oats_def oats_profile_def normalize_value_def py_replace_remove py_eval)

lemma read_oats_160: "read_dish (oats ''160'') = Inr (''Oats'', oats_profile 160)"
  by (simp add: read_dish_def oats_def oats_profile_def normalize_value_def py_replace_remove py_eval)

lemma oats_eq_same: "dict_eq (oats_profile 150) (oats_profile 150)"
  by (simp add: dict_eq_def oats_profile_def value_eq_def)

lemma oats_eq_diff: "\<not> dict_eq (oats_profile 150) (oats_profile 160)"
  by (simp add: dict_eq_def oats_profile_def value_eq_def)

lemma oats_table:
  "unique_foods_of oats_rows = [(''Oats'', [(oats_profile 150, 2), (oats_profile 160, 1)])]"
  by (simp add: unique_foods_of_def oats_rows_def process_row_def read_oats_150 read_oats_160
      record_dish_def entries_of_def add_profile_def oats_eq_same oats_eq_diff)

text \<open>
  Claim C4. When a dish is recorded and the list of its food name holds a profile equal
  to the dish's, the first such profile has its count raised by one and no entry is added;
  otherwise the entry \<open>(profile, 1)\<close> is appended. Two Oats dishes with the same
  nutrients share one profile of count 2, and a third Oats dish that differs in one value
  gets a second profile of count 1.
\<close>

theorem profile_counted_once:
  "(if list_ex (\<lambda>e. dict_eq (fst e) p) es
    then \<exists>i < length es. dict_eq (fst (es ! i)) p \<and> (\<forall>j < i. \<not> dict_eq (fst (es ! j)) p)
           \<and> add_profile es p = es[i := (fst (es ! i), snd (es ! i) + 1)]
    else add_profile es p = es @ [(p, 1)])
   \<and> unique_foods_of oats_rows = [(''Oats'', [(oats_profile 150, 2), (oats_profile 160, 1)])]"
proof (cases "bump_existing es p")
  case None
  then have "\<not> list_ex (\<lambda>e. dict_eq (fst e) p) es" by (simp add: bump_existing_None)
  with None oats_table show ?thesis by (simp add: add_profile_def)
next
  case (Some es')
  then have "bump_existing es p \<noteq> None" by simp
  then have ex: "list_ex (\<lambda>e. dict_eq (fst e) p) es" by (simp add: bump_existing_None)
  from bump_existing_Some[OF Some] Some ex oats_table show ?thesis
    by (simp add: add_profile_def)
qed

theorem profile_counted_once_witness:
  "add_profile [(oats_profile 150, 1)] (oats_profile 150) = [(oats_profile 150, 2)]
   \<and> add_profile [(oats_profile 150, 2)] (oats_profile 160)
       = [(oats_profile 150, 2), (oats_profile 160, 1)]"
proof -
  have a: "list_ex (\<lambda>e. dict_eq (fst e) (oats_profile 150)) [(oats_profile 150, 1)]"
    by (simp add: oats_eq_same)
  have b: "\<not> list_ex (\<lambda>e. dict_eq (fst e) (oats_profile 160)) [(oats_profile 150, 2)]"
    by (simp add: oats_eq_diff)
  from a profile_counted_once [of "oats_profile 150" "[(oats_profile 150, 1)]"]
  have "add_profile [(oats_profile 150, 1)] (oats_profile 150) = [(oats_profile 150, 2)]"
    by auto
  moreover from b profile_counted_once [of "oats_profile 160" "[(oats_profile 150, 2)]"]
  have "add_profile [(oats_profile 150, 2)] (oats_profile 160)
       = [(oats_profile 150, 2), (oats_profile 160, 1)]"
    by auto
  ultimately show ?thesis by simp
qed

subsection \<open>A row is a fold over the dishes it reaches\<close>
lemma read_dish_cases:
  "read_dish d = (if dish_ok d then Inr (dish_pair d) else Inl (case read_dish d of Inl e \<Rightarrow> e))"
  by (simp add: dish_ok_def dish_pair_def split: sum.splits)








subsection \<open>The table of profiles\<close>




















subsection \<open>Equality of profiles\<close>







subsection \<open>Counting distinct pairs\<close>












section \<open>Properties of the generator\<close>

subsection \<open>SQL escaping\<close>

lemma escape_sql_string_Some: "escape_sql_string (Some s) = double_quotes s"
  by (simp add: escape_sql_string_def double_quotes_def py_replace_char)

lemma double_quotes_obrien:
  "double_quotes obrien = ''O'' @ [quote, quote] @ ''Brien'' @ [quote, quote] @ ''s Bar''"
  by (simp add: double_quotes_def obrien_def quote_def)

text \<open>
  Claim C8. In the generated SQL every string field of a record (name, brand, serving unit,
  confidence, category) stands between two quotes with each of its quote characters
  doubled and every other character unchanged; nothing else is done to it. The food name
  \<open>O'Brien's Bar\<close> is rendered as \<open>'O''Brien''s Bar'\<close>.
\<close>

theorem sql_strings_escaped:
  "escape_sql_string (Some s) = double_quotes s
   \<and> sql_tuple fmt f =
       ''('' @ [quote] @ double_quotes (name f) @ [quote] @ '', ''
       @ [quote] @ double_quotes (brand f) @ [quote] @ '', ''
       @ fmt (calories f) @ '', '' @ fmt (protein f) @ '', '' @ fmt (carbs f) @ '', ''
       @ fmt (fat f) @ '', '' @ fmt (fiber f) @ '', '' @ fmt (sugar f) @ '', ''
       @ fmt (serving_size f) @ '', ''
       @ [quote] @ double_quotes (serving_unit f) @ [quote] @ '', ''
       @ [quote] @ double_quotes (confidence f) @ [quote] @ '', ''
       @ fmt (popularity f) @ '', ''
       @ [quote] @ double_quotes (category f) @ [quote] @ ''),''
   \<and> sql_output fmt foods
       = rstrip_commas (sql_header @ join_lines (map (sql_tuple fmt) foods)) @ '';''
   \<and> sql_text obrien
       = [quote] @ ''O'' @ [quote, quote] @ ''Brien'' @ [quote, quote] @ ''s Bar'' @ [quote]"
  by (simp add: sql_tuple_def sql_text_def sql_output_def escape_sql_string_Some
      double_quotes_obrien)

theorem sql_strings_escaped_witness:
  "escape_sql_string (Some obrien)
   = ''O'' @ [quote, quote] @ ''Brien'' @ [quote, quote] @ ''s Bar''"
  using sql_strings_escaped [of obrien] by (simp add: double_quotes_obrien)

subsection \<open>\<open>clean_numeric_value\<close>\<close>
lemma float_exponent_Nil: "float_exponent [] = Some 0"
  by (simp add: float_exponent_def)

lemma pow10_pos: "0 < pow10 k"
  by (simp add: pow10_def)

lemma float_decimal_nonneg: "float_decimal r = Some x \<Longrightarrow> float_nonneg x"
  by (auto simp: float_decimal_def float_nonneg_def Let_def pow10_pos less_imp_le
      split: if_splits option.splits)

lemma not_word_numeric:
  assumes "\<forall>c \<in> set r. is_digit c \<or> c = CHR ''.''" and "of_char (hd w) > (57 :: nat)" and "w \<noteq> []"
  shows "\<not> same_word r w"
proof (cases r)
  case Nil
  with assms(3) show ?thesis by (simp add: same_word_def)
next
  case (Cons c r')
  with assms(1) have "is_digit c \<or> c = CHR ''.''" by simp
  then have "lower_code c \<le> 57" by (auto simp: lower_code_def is_digit_def)
  with assms(2,3) Cons show ?thesis by (cases w) (auto simp: same_word_def)
qed

lemma float_unsigned_numeric:
  assumes "\<forall>c \<in> set r. is_digit c \<or> c = CHR ''.''"
  shows "float_unsigned r = float_decimal r"
  using not_word_numeric[OF assms, of "''inf''"] not_word_numeric[OF assms, of "''infinity''"]
    not_word_numeric[OF assms, of "''nan''"]
  by (simp add: float_unsigned_def)

lemma set_py_strip: "set (py_strip s) \<subseteq> set s"
proof -
  have "set (py_strip s) \<subseteq> set (dropWhile is_space s)"
    unfolding py_strip_def using set_dropWhileD by fastforce
  also have "\<dots> \<subseteq> set s" using set_dropWhileD by fastforce
  finally show ?thesis .
qed

lemma py_float_numeric_nonneg:
  assumes num: "\<forall>c \<in> set s. is_digit c \<or> c = CHR ''.''" and fl: "py_float s = Some x"
  shows "float_nonneg x"
proof -
  let ?t = "py_strip s"
  let ?u = "filter (\<lambda>c. c \<noteq> CHR ''_'') ?t"
  have u: "\<forall>c \<in> set ?u. is_digit c \<or> c = CHR ''.''"
    using num set_py_strip[of s] by auto
  from fl obtain c r where cr: "?u = c # r"
    by (cases ?u) (auto simp: py_float_def Let_def split: if_splits)
  with u have c: "is_digit c \<or> c = CHR ''.''" by (metis list.set_intros(1))
  then have "c \<noteq> CHR ''-''" "c \<noteq> CHR ''+''" by (auto simp: is_digit_def)
  with fl cr have "float_unsigned (c # r) = Some x"
    by (auto simp: py_float_def Let_def split: if_splits)
  moreover have "float_unsigned (c # r) = float_decimal (c # r)"
    using u cr by (intro float_unsigned_numeric) simp
  ultimately show ?thesis by (simp add: float_decimal_nonneg)
qed

lemma keep_numeric_chars: "\<forall>c \<in> set (keep_numeric s). is_digit c \<or> c = CHR ''.''"
  by (simp add: keep_numeric_def)

lemma clean_minus_five: "clean_numeric_value (JStr ''-5'') (PyInt 0) = PyFloat (Finite 5)"
  by (simp add: clean_numeric_value_def keep_numeric_def py_str_def py_eval)

text \<open>
  Claim C10. For every input value \<open>clean_numeric_value\<close> returns a non-negative number
  when its default is non-negative: either the default, or the float read from the digits
  and points of the value's text, every other character (a minus sign too) stripped
  before parsing. So \<open>-5\<close> gives \<open>5.0\<close>, and the defaults in use, 0 and 100, are
  non-negative.
\<close>

theorem clean_numeric_value_nonneg:
  "(pynum_nonneg dflt \<longrightarrow> pynum_nonneg (clean_numeric_value v dflt))
   \<and> (clean_numeric_value v dflt = dflt
        \<or> (\<exists>x. clean_numeric_value v dflt = PyFloat x \<and> float_nonneg x
                 \<and> py_float (keep_numeric (py_str v)) = Some x))
   \<and> clean_numeric_value (JStr ''-5'') (PyInt 0) = PyFloat (Finite 5)
   \<and> pynum_nonneg (PyInt 0) \<and> pynum_nonneg (PyInt 100)"
proof -
  have a: "clean_numeric_value v dflt = dflt
        \<or> (\<exists>x. clean_numeric_value v dflt = PyFloat x \<and> float_nonneg x
                 \<and> py_float (keep_numeric (py_str v)) = Some x)"
  proof (cases "v \<noteq> JNull \<and> keep_numeric (py_str v) \<noteq> []
                \<and> py_float (keep_numeric (py_str v)) \<noteq> None")
    case True
    then obtain x where x: "py_float (keep_numeric (py_str v)) = Some x" by auto
    then have "float_nonneg x"
      using py_float_numeric_nonneg[OF keep_numeric_chars] by blast
    moreover have "clean_numeric_value v dflt = PyFloat x"
      using True x by (cases v) (simp_all add: clean_numeric_value_def Let_def)
    ultimately show ?thesis using x by blast
  next
    case False
    then have "clean_numeric_value v dflt = dflt"
      by (cases v) (auto simp: clean_numeric_value_def Let_def split: option.splits)
    then show ?thesis by simp
  qed
  then have "pynum_nonneg dflt \<longrightarrow> pynum_nonneg (clean_numeric_value v dflt)"
    by (auto simp: pynum_nonneg_def)
  with a clean_minus_five show ?thesis by (simp add: pynum_nonneg_def)
qed

theorem clean_numeric_value_nonneg_witness:
  "pynum_nonneg (PyInt 0)
   \<and> clean_numeric_value (JStr ''1,200'') (PyInt 0) = PyFloat (Finite 1200)
   \<and> pynum_nonneg (clean_numeric_value (JStr ''1,200'') (PyInt 0))
   \<and> clean_numeric_value (JStr ''n/a'') (PyInt 100) = PyInt 100"
proof -
  have d: "pynum_nonneg (PyInt 0)" by (simp add: pynum_nonneg_def)
  have e: "clean_numeric_value (JStr ''1,200'') (PyInt 0) = PyFloat (Finite 1200)"
    by (simp add: clean_numeric_value_def keep_numeric_def py_str_def py_eval)
  have f: "clean_numeric_value (JStr ''n/a'') (PyInt 100) = PyInt 100"
    by (simp add: clean_numeric_value_def keep_numeric_def py_str_def py_eval)
  from d clean_numeric_value_nonneg [of "PyInt 0" "JStr ''1,200''"] e f show ?thesis
    by simp
qed

subsection \<open>Candidates\<close>

lemma get_stripped_name:
  "get_stripped obj k [] = Inr s \<Longrightarrow> s \<noteq> [] \<Longrightarrow> \<exists>t. map_of obj k = Some (JStr t) \<and> s = py_strip t"
  by (auto simp: get_stripped_def py_strip_def split: option.splits jval.splits)

lemma parse_food_Some:
  assumes "parse_food names obj = Some f"
  shows "name f \<noteq> [] \<and> name f \<notin> names
         \<and> (\<exists>t. map_of obj ''name'' = Some (JStr t) \<and> name f = py_strip t)"
proof -
  from assms obtain s where s: "get_stripped obj ''name'' [] = Inr s" "s \<noteq> []" "s \<notin> names"
    by (auto simp: parse_food_def split: sum.splits if_splits)
  with assms have "name f = s"
    by (auto simp: parse_food_def split: sum.splits if_splits)
  with s get_stripped_name[OF s(1,2)] show ?thesis by auto
qed

subsection \<open>Lines\<close>

lemma handle_line_cases:
  "handle_line jl sn l = sn
   \<or> (\<exists>f. parse_food (existing_names (fst sn)) (the (jl (py_strip l))) = Some f
          \<and> jl (py_strip l) \<noteq> None
          \<and> handle_line jl sn l
              = ((fst sn)\<lparr> generated_foods := generated_foods (fst sn) @ [f],
                           existing_names := insert (name f) (existing_names (fst sn)) \<rparr>,
                 snd sn + 1))"
  by (auto simp: handle_line_def Let_def split: option.splits)

lemma handle_line_names_ok:
  assumes "names_ok (fst sn)"
  shows "names_ok (fst (handle_line jl sn l))"
proof -
  from handle_line_cases[of jl sn l] show ?thesis
  proof
    assume "handle_line jl sn l = sn"
    with assms show ?thesis by simp
  next
    assume "\<exists>f. parse_food (existing_names (fst sn)) (the (jl (py_strip l))) = Some f
          \<and> jl (py_strip l) \<noteq> None
          \<and> handle_line jl sn l
              = ((fst sn)\<lparr> generated_foods := generated_foods (fst sn) @ [f],
                           existing_names := insert (name f) (existing_names (fst sn)) \<rparr>,
                 snd sn + 1)"
    then obtain f where f: "parse_food (existing_names (fst sn)) (the (jl (py_strip l))) = Some f"
      and h: "handle_line jl sn l
              = ((fst sn)\<lparr> generated_foods := generated_foods (fst sn) @ [f],
                           existing_names := insert (name f) (existing_names (fst sn)) \<rparr>,
                 snd sn + 1)"
      by blast
    from parse_food_Some[OF f] have "name f \<noteq> []" "name f \<notin> existing_names (fst sn)"
      by simp_all
    with assms h show ?thesis by (auto simp: names_ok_def)
  qed
qed

lemma handle_line_frame:
  "iteration (fst (handle_line jl sn l)) = iteration (fst sn)
   \<and> empty_iterations (fst (handle_line jl sn l)) = empty_iterations (fst sn)
   \<and> interrupted (fst (handle_line jl sn l)) = interrupted (fst sn)
   \<and> requests (fst (handle_line jl sn l)) = requests (fst sn)
   \<and> files (fst (handle_line jl sn l)) = files (fst sn)"
  using handle_line_cases[of jl sn l] by auto

lemma handle_line_count:
  "length (generated_foods (fst (handle_line jl sn l))) + snd sn
   = length (generated_foods (fst sn)) + snd (handle_line jl sn l)
   \<and> snd sn \<le> snd (handle_line jl sn l)
   \<and> (snd (handle_line jl sn l) = snd sn \<longrightarrow> handle_line jl sn l = sn)"
  using handle_line_cases[of jl sn l] by auto

lemma foldl_names_ok:
  "names_ok (fst sn) \<Longrightarrow> names_ok (fst (foldl (handle_line jl) sn ls))"
  by (induction ls arbitrary: sn) (simp_all add: handle_line_names_ok)

lemma foldl_frame:
  "iteration (fst (foldl (handle_line jl) sn ls)) = iteration (fst sn)
   \<and> empty_iterations (fst (foldl (handle_line jl) sn ls)) = empty_iterations (fst sn)
   \<and> interrupted (fst (foldl (handle_line jl) sn ls)) = interrupted (fst sn)
   \<and> requests (fst (foldl (handle_line jl) sn ls)) = requests (fst sn)
   \<and> files (fst (foldl (handle_line jl) sn ls)) = files (fst sn)"
  by (induction ls arbitrary: sn) (simp_all add: handle_line_frame)

lemma foldl_count:
  "length (generated_foods (fst (foldl (handle_line jl) sn ls))) + snd sn
   = length (generated_foods (fst sn)) + snd (foldl (handle_line jl) sn ls)
   \<and> snd sn \<le> snd (foldl (handle_line jl) sn ls)"
proof (induction ls arbitrary: sn)
  case Nil
  then show ?case by simp
next
  case (Cons l ls)
  from Cons.IH[of "handle_line jl sn l"] handle_line_count[of jl sn l]
  show ?case by simp
qed

lemma foldl_unchanged:
  "snd (foldl (handle_line jl) sn ls) = snd sn \<Longrightarrow> foldl (handle_line jl) sn ls = sn"
proof (induction ls arbitrary: sn)
  case Nil
  then show ?case by simp
next
  case (Cons l ls)
  have a: "snd sn \<le> snd (handle_line jl sn l)" using handle_line_count[of jl sn l] by simp
  have b: "snd (handle_line jl sn l) \<le> snd (foldl (handle_line jl) (handle_line jl sn l) ls)"
    using foldl_count[of jl "handle_line jl sn l" ls] by simp
  from Cons.prems a b have c: "snd (handle_line jl sn l) = snd sn" by simp
  then have d: "handle_line jl sn l = sn" using handle_line_count[of jl sn l] by simp
  with Cons.IH[of sn] Cons.prems show ?case by simp
qed

subsection \<open>One response and one pass\<close>

lemma run_reply_fields:
  "generated_foods (run_reply jl st r)
     = generated_foods (fst (foldl (handle_line jl) (st, 0) (py_split_lines (py_strip r))))
   \<and> existing_names (run_reply jl st r)
     = existing_names (fst (foldl (handle_line jl) (st, 0) (py_split_lines (py_strip r))))
   \<and> iteration (run_reply jl st r) = iteration st
   \<and> interrupted (run_reply jl st r) = interrupted st
   \<and> requests (run_reply jl st r) = requests st
   \<and> empty_iterations (run_reply jl st r)
     = (if new_count_of jl st r > 0 then 0 else empty_iterations st + 1)"
  using foldl_frame[of jl "(st, 0)" "py_split_lines (py_strip r)"]
  by (simp add: run_reply_def Let_def new_count_of_def)

lemma run_reply_files:
  "files (run_reply jl st r)
   = (if iteration st mod 5 = 0 \<and> generated_foods (run_reply jl st r) \<noteq> []
      then files st @ [(checkpoint_name (iteration st), Json (generated_foods (run_reply jl st r)))]
      else files st)"
  using foldl_frame[of jl "(st, 0)" "py_split_lines (py_strip r)"]
  by (simp add: run_reply_def Let_def)

lemma new_count_length:
  "length (generated_foods (run_reply jl st r)) = length (generated_foods st) + new_count_of jl st r"
  using foldl_count[of jl "(st, 0)" "py_split_lines (py_strip r)"]
  by (simp add: run_reply_fields new_count_of_def)

lemma run_reply_names_ok: "names_ok st \<Longrightarrow> names_ok (run_reply jl st r)"
  using foldl_names_ok[of "(st, 0)" jl "py_split_lines (py_strip r)"]
  by (simp add: names_ok_def run_reply_fields)

lemma loop_body_names_ok: "names_ok st \<Longrightarrow> names_ok (loop_body llm jl st)"
proof -
  assume ok: "names_ok st"
  have a: "names_ok (st\<lparr>iteration := iteration st + 1, requests := requests st + 1\<rparr>)"
    using ok by (simp add: names_ok_def)
  have b: "names_ok (st\<lparr>iteration := iteration st + 1, requests := requests st + 1,
                        interrupted := True\<rparr>)"
    using ok by (simp add: names_ok_def)
  from a b run_reply_names_ok[OF a] show ?thesis
    by (simp add: loop_body_def Let_def split: llm_result.splits)
qed

lemma run_names_ok: "names_ok st \<Longrightarrow> names_ok (run n llm jl st)"
  by (induction n arbitrary: st) (simp_all add: loop_body_names_ok)

lemma names_ok_initial: "names_ok initial_state"
  by (simp add: names_ok_def initial_state_def)

subsection \<open>The loop and its bounded runs\<close>

lemma run_stopped: "\<not> loop_guard st \<Longrightarrow> run n llm jl st = st"
  by (cases n) simp_all

lemma run_add: "run (a + b) llm jl st = run b llm jl (run a llm jl st)"
  by (induction a arbitrary: st) (simp_all add: run_stopped)

lemma main_loop_run:
  "\<not> loop_guard (run n llm jl st) \<Longrightarrow> main_loop llm jl st = Some (run n llm jl st)"
proof (induction n arbitrary: st)
  case 0
  then show ?case by (subst main_loop.simps) simp
next
  case (Suc n)
  show ?case
  proof (cases "loop_guard st")
    case True
    with Suc.prems have "\<not> loop_guard (run n llm jl (loop_body llm jl st))" by simp
    from Suc.IH[OF this] True show ?thesis by (subst main_loop.simps) simp
  next
    case False
    then show ?thesis by (subst main_loop.simps) simp
  qed
qed

lemma main_loop_is_run:
  assumes "main_loop llm jl st = Some st'"
  shows "\<exists>n. st' = run n llm jl st \<and> \<not> loop_guard st'"
proof (rule main_loop.raw_induct[where P = "\<lambda>llm jl st st'. \<exists>n. st' = run n llm jl st \<and> \<not> loop_guard st'",
        OF _ assms])
  fix loop :: "endpoint \<Rightarrow> loads \<Rightarrow> gen_state \<Rightarrow> gen_state option"
    and llm jl st st'
  assume IH: "\<And>llm jl st y. loop llm jl st = Some y \<Longrightarrow> \<exists>n. y = run n llm jl st \<and> \<not> loop_guard y"
    and eq: "(if loop_guard st then loop llm jl (loop_body llm jl st) else Some st) = Some st'"
  show "\<exists>n. st' = run n llm jl st \<and> \<not> loop_guard st'"
  proof (cases "loop_guard st")
    case True
    with eq have "loop llm jl (loop_body llm jl st) = Some st'" by simp
    from IH[OF this] obtain n where n: "st' = run n llm jl (loop_body llm jl st)" "\<not> loop_guard st'"
      by blast
    with True have "st' = run (Suc n) llm jl st" by simp
    with n(2) show ?thesis by blast
  next
    case False
    with eq have "st' = st" by simp
    with False have "st' = run 0 llm jl st" "\<not> loop_guard st'" by simp_all
    then show ?thesis by blast
  qed
qed

subsection \<open>The example line\<close>

lemma strip_example: "py_strip example_line = example_line"
  by (simp add: py_strip_def example_line_def is_space_def)

lemma braces_example: "startswith example_line ''{'' \<and> endswith example_line ''}''"
  by (simp add: startswith_def endswith_def example_line_def)

lemma lines_example: "py_split_lines example_line = [example_line]"
  by (simp add: example_line_def)

lemma parse_example_new:
  "''Protein Bar X'' \<notin> names \<Longrightarrow>
   parse_food names [(''name'', JStr ''Protein Bar X''), (''calories'', JStr ''1,200'')]
   = Some protein_bar"
  by (simp add: parse_food_def get_stripped_def dict_get_def clean_numeric_value_def
      keep_numeric_def py_str_def protein_bar_def py_eval)

lemma parse_example_seen:
  "''Protein Bar X'' \<in> names \<Longrightarrow>
   parse_food names [(''name'', JStr ''Protein Bar X''), (''calories'', JStr ''1,200'')] = None"
  by (simp add: parse_food_def get_stripped_def py_eval)

lemma handle_example:
  "handle_line example_loads (st, k) example_line
   = (if ''Protein Bar X'' \<in> existing_names st then (st, k)
      else (st\<lparr> generated_foods := generated_foods st @ [protein_bar],
                existing_names := insert ''Protein Bar X'' (existing_names st) \<rparr>, k + 1))"
  by (simp add: handle_line_def strip_example braces_example example_loads_def
      parse_example_new parse_example_seen protein_bar_def)

lemma reply_example:
  "run_reply example_loads st example_line
   = (let st1 = (if ''Protein Bar X'' \<in> existing_names st
                 then st\<lparr> empty_iterations := empty_iterations st + 1 \<rparr>
                 else st\<lparr> generated_foods := generated_foods st @ [protein_bar],
                          existing_names := insert ''Protein Bar X'' (existing_names st),
                          empty_iterations := 0 \<rparr>)
      in if iteration st mod 5 = 0 \<and> generated_foods st1 \<noteq> []
         then st1\<lparr> files := files st
                      @ [(checkpoint_name (iteration st), Json (generated_foods st1))] \<rparr>
         else st1)"
  by (simp add: run_reply_def strip_example lines_example handle_example Let_def)

lemma new_name: "''Protein Bar X'' \<notin> set EXISTING_FOODS"
  by (simp add: EXISTING_FOODS_def)

lemma run1_repeat:
  "run 1 repeat_endpoint example_loads initial_state
   = \<lparr> generated_foods = [protein_bar],
       existing_names = insert ''Protein Bar X'' (set EXISTING_FOODS),
       iteration = 1, empty_iterations = 0, interrupted = False, requests = 1, files = [] \<rparr>"
  using new_name
  by (simp add: loop_guard_def loop_body_def repeat_endpoint_def reply_example Let_def
      initial_state_def max_empty_iterations_def)

subsection \<open>Names\<close>

lemma parse_food_absent: "map_of obj ''name'' = None \<Longrightarrow> parse_food names obj = None"
  by (simp add: parse_food_def get_stripped_def py_strip_def)

lemma parse_food_blank_or_seen:
  "map_of obj ''name'' = Some (JStr t) \<Longrightarrow> py_strip t = [] \<or> py_strip t \<in> names \<Longrightarrow>
   parse_food names obj = None"
  by (auto simp: parse_food_def get_stripped_def)

text \<open>
  Claim C6. At every moment of a run the accepted records have non-empty names that are
  pairwise distinct and differ from every pre-existing name (compared as exact strings),
  and the seen set is the pre-existing names with the accepted ones; the same holds when
  the loop has ended. A candidate whose name is absent, blank after stripping, or already
  in the seen set is dropped, and an accepted record carries its stripped name.
\<close>

theorem accepted_names_unique:
  "distinct (map name (generated_foods (run n llm jl initial_state)))
   \<and> (\<forall>f \<in> set (generated_foods (run n llm jl initial_state)).
         name f \<noteq> [] \<and> name f \<notin> set EXISTING_FOODS)
   \<and> existing_names (run n llm jl initial_state)
       = set EXISTING_FOODS \<union> set (map name (generated_foods (run n llm jl initial_state)))
   \<and> (main_loop llm jl initial_state = Some st \<longrightarrow>
         distinct (map name (generated_foods st))
         \<and> (\<forall>f \<in> set (generated_foods st). name f \<noteq> [] \<and> name f \<notin> set EXISTING_FOODS))
   \<and> (map_of obj ''name'' = None \<longrightarrow> parse_food names obj = None)
   \<and> (map_of obj ''name'' = Some (JStr t) \<and> (py_strip t = [] \<or> py_strip t \<in> names)
        \<longrightarrow> parse_food names obj = None)
   \<and> (parse_food names obj = Some f \<longrightarrow>
        name f \<noteq> [] \<and> name f \<notin> names
        \<and> (\<exists>t. map_of obj ''name'' = Some (JStr t) \<and> name f = py_strip t))"
proof -
  have a: "names_ok (run n llm jl initial_state)"
    by (rule run_names_ok[OF names_ok_initial])
  have b: "main_loop llm jl initial_state = Some st \<longrightarrow> names_ok st"
  proof
    assume "main_loop llm jl initial_state = Some st"
    from main_loop_is_run[OF this] obtain k where "st = run k llm jl initial_state" by blast
    then show "names_ok st" by (simp add: run_names_ok[OF names_ok_initial])
  qed
  from a b show ?thesis
    using parse_food_absent[of obj names] parse_food_blank_or_seen[of obj t names]
      parse_food_Some[of names obj f]
    unfolding names_ok_def by blast
qed

lemma run_numeral:
  "run (numeral k) llm jl st
   = (if loop_guard st then run (pred_numeral k) llm jl (loop_body llm jl st) else st)"
  by (simp add: numeral_eq_Suc)

lemma run3_repeat:
  "run 3 repeat_endpoint example_loads initial_state
   = \<lparr> generated_foods = [protein_bar],
       existing_names = insert ''Protein Bar X'' (set EXISTING_FOODS),
       iteration = 3, empty_iterations = 2, interrupted = False, requests = 3, files = [] \<rparr>"
  using new_name
  by (simp add: run_numeral loop_guard_def loop_body_def repeat_endpoint_def reply_example
      Let_def initial_state_def max_empty_iterations_def)

theorem accepted_names_unique_witness:
  "generated_foods (run 3 repeat_endpoint example_loads initial_state) = [protein_bar]
   \<and> distinct (map name (generated_foods (run 3 repeat_endpoint example_loads initial_state)))
   \<and> existing_names (run 3 repeat_endpoint example_loads initial_state)
       = set EXISTING_FOODS \<union> {''Protein Bar X''}
   \<and> parse_food (set EXISTING_FOODS) [(''name'', JStr ''  '')] = None"
proof -
  have blank: "map_of [(''name'', JStr ''  '')] ''name'' = Some (JStr ''  '')
               \<and> (py_strip ''  '' = [] \<or> py_strip ''  '' \<in> set EXISTING_FOODS)"
    by (simp add: py_strip_def is_space_def)
  from accepted_names_unique [of 3 repeat_endpoint example_loads undefined
      "[(''name'', JStr ''  '')]" "set EXISTING_FOODS" "''  ''" undefined] blank
  show ?thesis by (simp add: run3_repeat protein_bar_def)
qed

subsection \<open>The counter of empty iterations\<close>

lemma loop_body_reply:
  assumes "llm (iteration st + 1) (categories ! ((iteration st + 1) mod length categories)) = Reply r"
  shows "loop_body llm jl st
         = run_reply jl (st\<lparr> iteration := iteration st + 1, requests := requests st + 1 \<rparr>) r"
  using assms by (simp add: loop_body_def Let_def)

lemma loop_body_failure:
  assumes "llm (iteration st + 1) (categories ! ((iteration st + 1) mod length categories)) = Failure"
  shows "loop_body llm jl st = st\<lparr> iteration := iteration st + 1, requests := requests st + 1 \<rparr>"
  using assms by (simp add: loop_body_def Let_def)

lemma loop_body_interrupt:
  assumes "llm (iteration st + 1) (categories ! ((iteration st + 1) mod length categories))
           = KeyboardInterrupt"
  shows "loop_body llm jl st
         = st\<lparr> iteration := iteration st + 1, requests := requests st + 1, interrupted := True \<rparr>"
  using assms by (simp add: loop_body_def Let_def)

lemma loop_body_iteration: "iteration (loop_body llm jl st) = iteration st + 1"
  by (simp add: loop_body_def Let_def run_reply_fields split: llm_result.splits)

lemma loop_body_requests: "requests (loop_body llm jl st) = requests st + 1"
  by (simp add: loop_body_def Let_def run_reply_fields split: llm_result.splits)

lemma new_count_of_frame:
  "new_count_of jl (st\<lparr> iteration := i, requests := q \<rparr>) r = new_count_of jl st r"
proof -
  have "snd (foldl (handle_line jl) (s\<lparr> iteration := i, requests := q \<rparr>, k) ls)
        = snd (foldl (handle_line jl) (s, k) ls)
        \<and> fst (foldl (handle_line jl) (s\<lparr> iteration := i, requests := q \<rparr>, k) ls)
        = (fst (foldl (handle_line jl) (s, k) ls))\<lparr> iteration := i, requests := q \<rparr>"
    for s k ls
  proof (induction ls arbitrary: s k)
    case Nil
    then show ?case by simp
  next
    case (Cons l ls)
    have step: "handle_line jl (s\<lparr> iteration := i, requests := q \<rparr>, k) l
          = ((fst (handle_line jl (s, k) l))\<lparr> iteration := i, requests := q \<rparr>,
             snd (handle_line jl (s, k) l))"
      by (simp add: handle_line_def Let_def split: option.splits)
    show ?case
      using Cons.IH[of "fst (handle_line jl (s, k) l)" "snd (handle_line jl (s, k) l)"]
      by (simp add: step)
  qed
  then show ?thesis by (simp add: new_count_of_def)
qed

lemma empty_reply_step:
  assumes "empty_reply llm jl st"
  shows "empty_iterations (loop_body llm jl st) = empty_iterations st + 1
         \<and> requests (loop_body llm jl st) = requests st + 1
         \<and> interrupted (loop_body llm jl st) = interrupted st"
proof -
  from assms obtain r where
    r: "llm (iteration st + 1) (categories ! ((iteration st + 1) mod length categories)) = Reply r"
    and z: "new_count_of jl st r = 0"
    by (auto simp: empty_reply_def split: llm_result.splits)
  from z loop_body_reply[of llm st r jl] r show ?thesis
    by (simp add: run_reply_fields new_count_of_frame)
qed

lemma run_Suc_end:
  "run (Suc j) llm jl st
   = (if loop_guard (run j llm jl st) then loop_body llm jl (run j llm jl st) else run j llm jl st)"
proof -
  have "run (Suc j) llm jl st = run 1 llm jl (run j llm jl st)"
    using run_add[of j 1 llm jl st] by simp
  then show ?thesis by simp
qed

lemma quiet_run:
  assumes "\<not> interrupted st"
    and "\<forall>k < j. empty_reply llm jl (run k llm jl st)"
    and "empty_iterations st + j \<le> max_empty_iterations"
  shows "empty_iterations (run j llm jl st) = empty_iterations st + j
         \<and> requests (run j llm jl st) = requests st + j
         \<and> \<not> interrupted (run j llm jl st)"
  using assms(2,3)
proof (induction j)
  case 0
  with assms(1) show ?case by simp
next
  case (Suc j)
  then have IH: "empty_iterations (run j llm jl st) = empty_iterations st + j"
    "requests (run j llm jl st) = requests st + j" "\<not> interrupted (run j llm jl st)"
    by simp_all
  with Suc.prems(2) have g: "loop_guard (run j llm jl st)" by (simp add: loop_guard_def)
  from Suc.prems(1) have "empty_reply llm jl (run j llm jl st)" by simp
  from empty_reply_step[OF this] IH g show ?case by (simp add: run_Suc_end del: run.simps)
qed

text \<open>
  Claim C1, as amended. An iteration whose reply adds at least one record sets the counter
  of empty iterations to zero, and one whose reply adds none raises it by one; an iteration
  whose request fails leaves the counter as it was, and an interrupt ends the loop. Once
  the counter has reached 10, or the user has interrupted, the loop returns and sends no
  more requests. After consecutive iterations that each get a reply and add no record, as
  many as bring the counter to 10, the loop has ended and no further request is sent.
\<close>

theorem empty_counter_ends_loop:
  "(case llm (iteration st + 1) (categories ! ((iteration st + 1) mod length categories)) of
      Reply r \<Rightarrow>
        empty_iterations (loop_body llm jl st)
        = (if length (generated_foods st) < length (generated_foods (loop_body llm jl st))
           then 0 else empty_iterations st + 1)
    | Failure \<Rightarrow>
        empty_iterations (loop_body llm jl st) = empty_iterations st
        \<and> generated_foods (loop_body llm jl st) = generated_foods st
    | KeyboardInterrupt \<Rightarrow> interrupted (loop_body llm jl st))
   \<and> (max_empty_iterations \<le> empty_iterations st \<or> interrupted st
        \<longrightarrow> main_loop llm jl st = Some st \<and> run n llm jl st = st)
   \<and> (\<not> interrupted st
        \<and> (\<forall>k < max_empty_iterations - empty_iterations st. empty_reply llm jl (run k llm jl st))
        \<longrightarrow> main_loop llm jl st
              = Some (run (max_empty_iterations - empty_iterations st) llm jl st)
            \<and> requests (run (max_empty_iterations - empty_iterations st + m) llm jl st)
              = requests st + (max_empty_iterations - empty_iterations st))"
proof (intro conjI impI)
  show "case llm (iteration st + 1) (categories ! ((iteration st + 1) mod length categories)) of
      Reply r \<Rightarrow>
        empty_iterations (loop_body llm jl st)
        = (if length (generated_foods st) < length (generated_foods (loop_body llm jl st))
           then 0 else empty_iterations st + 1)
    | Failure \<Rightarrow>
        empty_iterations (loop_body llm jl st) = empty_iterations st
        \<and> generated_foods (loop_body llm jl st) = generated_foods st
    | KeyboardInterrupt \<Rightarrow> interrupted (loop_body llm jl st)"
  proof (cases "llm (iteration st + 1) (categories ! ((iteration st + 1) mod length categories))")
    case (Reply r)
    let ?s = "st\<lparr> iteration := iteration st + 1, requests := requests st + 1 \<rparr>"
    have "length (generated_foods (run_reply jl ?s r))
          = length (generated_foods st) + new_count_of jl ?s r"
      using new_count_length[of jl ?s r] by simp
    then show ?thesis
      using Reply loop_body_reply[of llm st r jl] by (simp add: run_reply_fields)
  next
    case Failure
    then show ?thesis using loop_body_failure[of llm st jl] by simp
  next
    case KeyboardInterrupt
    then show ?thesis using loop_body_interrupt[of llm st jl] by simp
  qed
next
  assume "max_empty_iterations \<le> empty_iterations st \<or> interrupted st"
  then have ng: "\<not> loop_guard st" by (auto simp: loop_guard_def)
  then show "main_loop llm jl st = Some st" by (subst main_loop.simps) simp
  from ng show "run n llm jl st = st" by (rule run_stopped)
next
  let ?n = "max_empty_iterations - empty_iterations st"
  assume q: "\<not> interrupted st \<and> (\<forall>k < ?n. empty_reply llm jl (run k llm jl st))"
  show "main_loop llm jl st = Some (run ?n llm jl st)"
    and "requests (run (?n + m) llm jl st) = requests st + ?n"
  proof -
    have ng: "\<not> loop_guard (run ?n llm jl st)"
    proof (cases "empty_iterations st \<le> max_empty_iterations")
      case True
      with q quiet_run[of st ?n llm jl] show ?thesis by (simp add: loop_guard_def)
    next
      case False
      then have "\<not> loop_guard st" by (simp add: loop_guard_def)
      then show ?thesis by (simp add: run_stopped)
    qed
    have rq: "requests (run ?n llm jl st) = requests st + ?n"
    proof (cases "empty_iterations st \<le> max_empty_iterations")
      case True
      with q quiet_run[of st ?n llm jl] show ?thesis by simp
    next
      case False
      then show ?thesis by simp
    qed
    from ng show "main_loop llm jl st = Some (run ?n llm jl st)" by (rule main_loop_run)
    from ng rq show "requests (run (?n + m) llm jl st) = requests st + ?n"
      by (simp add: run_add run_stopped)
  qed
qed

lemma silent_empty: "empty_reply silent_endpoint jl st"
  by (simp add: empty_reply_def silent_endpoint_def new_count_of_def py_strip_def is_space_def
      handle_line_def startswith_def)

theorem empty_counter_ends_loop_witness:
  "main_loop silent_endpoint example_loads initial_state
     = Some (run 10 silent_endpoint example_loads initial_state)
   \<and> requests (run 10 silent_endpoint example_loads initial_state) = 10
   \<and> requests (run 25 silent_endpoint example_loads initial_state) = 10"
proof -
  have h: "\<not> interrupted initial_state
       \<and> (\<forall>k < max_empty_iterations - empty_iterations initial_state.
             empty_reply silent_endpoint example_loads
               (run k silent_endpoint example_loads initial_state))"
    by (simp add: silent_empty initial_state_def)
  have n: "max_empty_iterations - empty_iterations initial_state = 10"
    "requests initial_state = 0"
    by (simp_all add: max_empty_iterations_def initial_state_def)
  from h empty_counter_ends_loop [where llm = silent_endpoint and st = initial_state
      and jl = example_loads and n = 0 and m = 0]
    empty_counter_ends_loop [where llm = silent_endpoint and st = initial_state
      and jl = example_loads and n = 0 and m = 15]
  show ?thesis unfolding n by simp
qed

lemma run_failing:
  "loop_guard st \<Longrightarrow>
   run n failing_endpoint jl st = st\<lparr> iteration := iteration st + n, requests := requests st + n \<rparr>"
proof (induction n arbitrary: st)
  case 0
  then show ?case by simp
next
  case (Suc n)
  let ?s = "st\<lparr> iteration := iteration st + 1, requests := requests st + 1 \<rparr>"
  have b: "loop_body failing_endpoint jl st = ?s"
    by (simp add: loop_body_def failing_endpoint_def Let_def)
  have "loop_guard ?s" using Suc.prems by (simp add: loop_guard_def)
  from Suc.IH[OF this] Suc.prems b show ?case by simp
qed

lemma never_leaves:
  assumes "\<And>n. loop_guard (run n llm jl st)"
  shows "main_loop llm jl st = None"
proof (cases "main_loop llm jl st")
  case None
  then show ?thesis .
next
  case (Some st')
  from main_loop_is_run[OF Some] assms show ?thesis by blast
qed

text \<open>
  The claim as stated counts an iteration that ends in an error as an empty one. With an
  endpoint that is down, ten iterations in a row add no record, the counter is still zero,
  an eleventh request is sent, and the loop never ends.
\<close>

theorem failing_endpoint_counterexample:
  "generated_foods (run 10 failing_endpoint example_loads initial_state) = []
   \<and> iteration (run 10 failing_endpoint example_loads initial_state) = 10
   \<and> empty_iterations (run 10 failing_endpoint example_loads initial_state) = 0
   \<and> requests (run 11 failing_endpoint example_loads initial_state) = 11
   \<and> main_loop failing_endpoint example_loads initial_state = None"
proof -
  have g: "loop_guard initial_state"
    by (simp add: loop_guard_def initial_state_def max_empty_iterations_def)
  have "loop_guard (run n failing_endpoint example_loads initial_state)" for n
    using g by (simp add: run_failing[OF g] loop_guard_def)
  then have "main_loop failing_endpoint example_loads initial_state = None"
    by (rule never_leaves)
  then show ?thesis unfolding run_failing[OF g] by (simp add: initial_state_def)
qed

subsection \<open>Checkpoints\<close>

text \<open>
  Claim C7, as amended. An iteration writes a checkpoint exactly when it gets a reply, its
  number is a multiple of 5 and the accumulated result set is not empty; the file is named
  by the iteration number and holds the accumulated records. An iteration whose request
  fails or is interrupted writes nothing.
\<close>

theorem checkpoint_every_fifth:
  "files (loop_body llm jl st)
   = (case llm (iteration st + 1) (categories ! ((iteration st + 1) mod length categories)) of
        Reply r \<Rightarrow>
          if (iteration st + 1) mod 5 = 0 \<and> generated_foods (loop_body llm jl st) \<noteq> []
          then files st @ [(checkpoint_name (iteration st + 1),
                            Json (generated_foods (loop_body llm jl st)))]
          else files st
      | Failure \<Rightarrow> files st
      | KeyboardInterrupt \<Rightarrow> files st)
   \<and> iteration (loop_body llm jl st) = iteration st + 1"
proof (cases "llm (iteration st + 1) (categories ! ((iteration st + 1) mod length categories))")
  case (Reply r)
  then show ?thesis
    using loop_body_reply[of llm st r jl]
      run_reply_files[of jl "st\<lparr> iteration := iteration st + 1, requests := requests st + 1 \<rparr>" r]
    by (simp add: run_reply_fields)
next
  case Failure
  then show ?thesis using loop_body_failure[of llm st jl] by simp
next
  case KeyboardInterrupt
  then show ?thesis using loop_body_interrupt[of llm st jl] by simp
qed

lemma run4_repeat:
  "run 4 repeat_endpoint example_loads initial_state
   = \<lparr> generated_foods = [protein_bar],
       existing_names = insert ''Protein Bar X'' (set EXISTING_FOODS),
       iteration = 4, empty_iterations = 3, interrupted = False, requests = 4, files = [] \<rparr>"
  using new_name
  by (simp add: run_numeral loop_guard_def loop_body_def repeat_endpoint_def reply_example
      Let_def initial_state_def max_empty_iterations_def)

lemma str_nat_5: "str_nat 5 = ''5''"
  by (subst str_nat.simps) (simp add: digit_char_def)

theorem checkpoint_every_fifth_witness:
  "files (loop_body repeat_endpoint example_loads
            (run 4 repeat_endpoint example_loads initial_state))
   = [(''generated_foods_iter_5.json'', Json [protein_bar])]"
proof -
  let ?s = "run 4 repeat_endpoint example_loads initial_state"
  have g: "generated_foods (loop_body repeat_endpoint example_loads ?s) = [protein_bar]"
    unfolding run4_repeat
    by (simp add: loop_body_def repeat_endpoint_def reply_example Let_def)
  from checkpoint_every_fifth [of repeat_endpoint example_loads ?s] g
  show ?thesis
    by (simp add: run4_repeat repeat_endpoint_def checkpoint_name_def str_nat_5)
qed

lemma run_silent:
  "empty_iterations st + n \<le> max_empty_iterations \<Longrightarrow> \<not> interrupted st \<Longrightarrow>
   generated_foods st = [] \<Longrightarrow>
   run n silent_endpoint jl st
   = st\<lparr> iteration := iteration st + n, requests := requests st + n,
          empty_iterations := empty_iterations st + n \<rparr>"
proof (induction n arbitrary: st)
  case 0
  then show ?case by simp
next
  case (Suc n)
  let ?s = "st\<lparr> iteration := iteration st + 1, requests := requests st + 1,
                empty_iterations := empty_iterations st + 1 \<rparr>"
  have b: "loop_body silent_endpoint jl st = ?s"
    using Suc.prems(3)
    by (simp add: loop_body_def silent_endpoint_def Let_def run_reply_def py_strip_def
        is_space_def handle_line_def startswith_def)
  have g: "loop_guard st" using Suc.prems by (simp add: loop_guard_def)
  have "run n silent_endpoint jl ?s
        = ?s\<lparr> iteration := iteration ?s + n, requests := requests ?s + n,
               empty_iterations := empty_iterations ?s + n \<rparr>"
    using Suc.prems by (intro Suc.IH) simp_all
  with b g show ?case by simp
qed

lemma run5_one_food:
  "run 5 one_food_endpoint example_loads initial_state
   = \<lparr> generated_foods = [protein_bar],
       existing_names = insert ''Protein Bar X'' (set EXISTING_FOODS),
       iteration = 5, empty_iterations = 0, interrupted = False, requests = 5, files = [] \<rparr>"
  using new_name
  by (simp add: run_numeral loop_guard_def loop_body_def one_food_endpoint_def reply_example
      Let_def initial_state_def max_empty_iterations_def)

text \<open>
  The claim as stated has a checkpoint at every fifth iteration. None is written at
  iteration 5 when no record has been accepted so far, nor when the request of iteration 5
  fails.
\<close>

theorem no_checkpoint_counterexample:
  "iteration (run 5 silent_endpoint example_loads initial_state) = 5
   \<and> files (run 5 silent_endpoint example_loads initial_state) = []
   \<and> iteration (run 5 one_food_endpoint example_loads initial_state) = 5
   \<and> generated_foods (run 5 one_food_endpoint example_loads initial_state) = [protein_bar]
   \<and> files (run 5 one_food_endpoint example_loads initial_state) = []"
proof -
  have "run 5 silent_endpoint example_loads initial_state
        = initial_state\<lparr> iteration := iteration initial_state + 5,
                          requests := requests initial_state + 5,
                          empty_iterations := empty_iterations initial_state + 5 \<rparr>"
    by (rule run_silent) (simp_all add: initial_state_def max_empty_iterations_def)
  then show ?thesis unfolding run5_one_food by (simp add: initial_state_def)
qed

section \<open>Properties of the deduplicator\<close>












end
